theory Spec2Isabelle
  imports Main "HOL-Library.Word"
begin

unbundle bit_operations_syntax

section \<open>Length-prefixed message framing (PackedMessage.h)\<close>

subsection \<open>Machine types\<close>

text \<open>
  \<open>boost::uint8_t\<close> is an 8-bit word. \<open>unsigned\<close> and \<open>int\<close> are 32 bits wide: both
  are a \<open>32 word\<close>, read with \<open>unat\<close> where the source says \<open>unsigned\<close> and with
  \<open>sint\<close> where it says \<open>int\<close>. \<open>size_t\<close> (the type of \<open>buf.size()\<close>) is 64 bits
  wide. A \<open>data_buffer\<close> (\<open>std::vector<boost::uint8_t>\<close>) is a list of bytes; the
  memory behind a \<open>boost::uint8_t *\<close> is a list of bytes as well, passed next to the
  length the caller states for it.
\<close>

type_synonym u8 = "8 word"
type_synonym u32 = "32 word"
type_synonym size_t = "64 word"
type_synonym data_buffer = "u8 list"

definition HEADER_SIZE :: nat where
  "HEADER_SIZE = 4"

text \<open>
  What C++ leaves undefined is a value of the model: calling through the empty
  \<open>shared_ptr\<close>, a failed \<open>assert\<close>, an access outside the bytes of a buffer (also a
  byte range of negative size handed to the message), and overflow of \<open>int\<close> addition.
\<close>

datatype fault = NullDereference | AssertionFailure | OutOfBounds | SignedOverflow

subsection \<open>The message type\<close>

text \<open>
  \<open>MessageType\<close> is the template parameter, a class generated by the protobuf compiler;
  its four member functions that the codec calls are parameters of the model, over the
  message's state \<open>'s\<close>:
  \<^item> \<open>int ByteSize() const\<close>;
  \<^item> \<open>bool SerializeToArray(void* data, int size) const\<close>: given the size of the range,
    the result and the bytes it stores from \<open>data[0]\<close> on;
  \<^item> \<open>bool ParseFromArray(const void* data, int size)\<close>: given the state and the bytes
    of the range, the result and the new state;
  \<^item> \<open>void Clear()\<close>.
\<close>

record 's message_type =
  ByteSize :: "'s \<Rightarrow> u32"
  SerializeToArray :: "'s \<Rightarrow> nat \<Rightarrow> bool \<times> u8 list"
  ParseFromArray :: "'s \<Rightarrow> u8 list \<Rightarrow> bool \<times> 's"
  Clear :: "'s \<Rightarrow> 's"

text \<open>
  \<open>m_msg->SerializeToArray(&buf[off], size)\<close>: the range \<open>[off, off + size)\<close> has to lie
  inside the buffer and the message has to stay inside the range; the bytes it stores
  replace the buffer's bytes from \<open>off\<close> on.
\<close>

definition serialize_to ::
  "'s message_type \<Rightarrow> 's \<Rightarrow> u8 list \<Rightarrow> nat \<Rightarrow> u32 \<Rightarrow> fault + (bool \<times> u8 list)" where
  "serialize_to M s buf off sz =
     (if sint sz < 0 \<or> length buf < off + nat (sint sz) then Inl OutOfBounds
      else let (ok, out) = SerializeToArray M s (nat (sint sz))
           in if nat (sint sz) < length out then Inl OutOfBounds
              else Inr (ok, take off buf @ out @ drop (off + length out) buf))"

text \<open>
  \<open>m_msg->ParseFromArray(&buf[off], size)\<close>: the message reads the bytes of the range
  \<open>[off, off + size)\<close>, which has to lie inside the buffer.
\<close>

definition parse_from ::
  "'s message_type \<Rightarrow> 's \<Rightarrow> u8 list \<Rightarrow> nat \<Rightarrow> u32 \<Rightarrow> fault + (bool \<times> 's)" where
  "parse_from M s buf off sz =
     (if sint sz < 0 \<or> length buf < off + nat (sint sz) then Inl OutOfBounds
      else Inr (ParseFromArray M s (take (nat (sint sz)) (drop off buf))))"

subsection \<open>Header encoding and decoding\<close>

text \<open>\<open>std::vector::resize\<close>: keeps the leading elements, appends zero bytes.\<close>

definition resize :: "data_buffer \<Rightarrow> nat \<Rightarrow> data_buffer" where
  "resize buf n = take n buf @ replicate (n - length buf) 0"

text \<open>The four stores of both \<open>encode_header\<close> overloads.\<close>

definition store_header :: "u8 list \<Rightarrow> u32 \<Rightarrow> u8 list" where
  "store_header buf v =
     (let buf = buf[0 := ucast (drop_bit 24 v AND 0xFF)];
          buf = buf[1 := ucast (drop_bit 16 v AND 0xFF)];
          buf = buf[2 := ucast (drop_bit 8 v AND 0xFF)];
          buf = buf[3 := ucast (v AND 0xFF)]
      in buf)"

definition encode_header :: "data_buffer \<Rightarrow> u32 \<Rightarrow> fault + data_buffer" where
  "encode_header buf v =
     (if \<not> HEADER_SIZE \<le> length buf then Inl AssertionFailure
      else Inr (store_header buf v))"

definition encode_header_raw :: "u8 list \<Rightarrow> u32 \<Rightarrow> u32 \<Rightarrow> fault + u8 list" where
  "encode_header_raw buf buf_size v =
     (if \<not> of_nat HEADER_SIZE \<le> buf_size then Inl AssertionFailure
      else if length buf < HEADER_SIZE then Inl OutOfBounds
      else Inr (store_header buf v))"

text \<open>
  The loop of both \<open>decode_header\<close> overloads,
  \<open>for (i = 0; i < HEADER_SIZE; ++i) msg_size = msg_size * 256 + (unsigned(buf[i]) & 0xFF)\<close>,
  in \<open>unsigned\<close> arithmetic. The guard before it compares \<open>buf.size()\<close>, the number
  of bytes of the vector, or the \<open>unsigned buf_size\<close> the caller states with
  \<open>HEADER_SIZE\<close>; behind a pointer the four bytes have to be there.
\<close>

definition load_header :: "u8 list \<Rightarrow> u32" where
  "load_header buf =
     fold (\<lambda>i msg_size. msg_size * 256 + (ucast (buf ! i) AND 0xFF)) [0..<HEADER_SIZE] 0"

definition decode_header :: "data_buffer \<Rightarrow> u32" where
  "decode_header buf =
     (if length buf < HEADER_SIZE then 0
      else load_header buf)"

definition decode_header_raw :: "u8 list \<Rightarrow> u32 \<Rightarrow> fault + u32" where
  "decode_header_raw buf buf_size =
     (if buf_size < of_nat HEADER_SIZE then Inr 0
      else if length buf < HEADER_SIZE then Inl OutOfBounds
      else Inr (load_header buf))"

subsection \<open>Packing\<close>

text \<open>
  The codec's only field is \<open>m_msg\<close>, a \<open>shared_ptr\<close> to the message: \<open>None\<close> is the empty
  pointer, \<open>Some s\<close> a message in state \<open>s\<close>. \<open>pack(data_buffer&)\<close> returns its result
  and the buffer as it leaves it. Here \<open>msg_size\<close> is \<open>unsigned\<close>: the sum
  \<open>HEADER_SIZE + msg_size\<close> wraps around, and \<open>SerializeToArray\<close> takes it as an
  \<open>int\<close> again.
\<close>

definition pack ::
  "'s message_type \<Rightarrow> 's option \<Rightarrow> data_buffer \<Rightarrow> fault + (bool \<times> data_buffer)" where
  "pack M m_msg buf =
     (case m_msg of
        None \<Rightarrow> Inr (False, buf)
      | Some s \<Rightarrow>
          let msg_size = ByteSize M s;
              buf = resize buf (unat (of_nat HEADER_SIZE + msg_size))
          in (case encode_header buf msg_size of
                Inl f \<Rightarrow> Inl f
              | Inr buf \<Rightarrow>
                  (if 0 < msg_size then serialize_to M s buf HEADER_SIZE msg_size
                   else Inr (True, buf))))"

text \<open>\<open>memset(buf, 0, buf_size)\<close>, the \<open>int\<close> converted to \<open>size_t\<close>.\<close>

definition memset_zero :: "u8 list \<Rightarrow> u32 \<Rightarrow> fault + u8 list" where
  "memset_zero buf n =
     (if sint n < 0 \<or> length buf < nat (sint n) then Inl OutOfBounds
      else Inr (replicate (nat (sint n)) 0 @ drop (nat (sint n)) buf))"

text \<open>
  \<open>pack(boost::uint8_t *buf, int buf_size)\<close>: \<open>buf\<close> is the memory of the caller's array,
  returned as the call leaves it. Here \<open>msg_size\<close> is an \<open>int\<close>, and the sum
  \<open>(int)HEADER_SIZE + msg_size\<close> of the capacity test is \<open>int\<close> addition, undefined
  beyond 2147483647. \<open>encode_header\<close> takes \<open>buf_size\<close> and \<open>msg_size\<close> as
  \<open>unsigned\<close>.
\<close>

definition pack_fixed ::
  "'s message_type \<Rightarrow> 's option \<Rightarrow> u8 list \<Rightarrow> u32 \<Rightarrow> fault + (bool \<times> u8 list)" where
  "pack_fixed M m_msg buf buf_size =
     (case m_msg of
        None \<Rightarrow> Inr (False, buf)
      | Some s \<Rightarrow>
          let msg_size = ByteSize M s
          in if 2147483647 < int HEADER_SIZE + sint msg_size then Inl SignedOverflow
             else if int HEADER_SIZE + sint msg_size < sint buf_size then
               (case memset_zero buf buf_size of
                  Inl f \<Rightarrow> Inl f
                | Inr buf \<Rightarrow>
                    (case encode_header_raw buf buf_size msg_size of
                       Inl f \<Rightarrow> Inl f
                     | Inr buf \<Rightarrow>
                         if 0 < sint msg_size
                         then serialize_to M s buf HEADER_SIZE msg_size
                         else Inr (True, buf)))
             else Inr (False, buf))"

subsection \<open>Unpacking\<close>

text \<open>
  Both \<open>unpack\<close> overloads return their result and the message's new state. The
  subtraction \<open>buf.size() - HEADER_SIZE\<close> is in \<open>size_t\<close>, \<open>buf_size - HEADER_SIZE\<close> in
  \<open>unsigned\<close>: both wrap around. The difference becomes the \<open>int size\<close> of
  \<open>ParseFromArray\<close>.
\<close>

definition unpack ::
  "'s message_type \<Rightarrow> 's option \<Rightarrow> data_buffer \<Rightarrow> fault + (bool \<times> 's)" where
  "unpack M m_msg buf =
     (case m_msg of
        None \<Rightarrow> Inl NullDereference
      | Some s \<Rightarrow>
          let s = Clear M s;
              n = (of_nat (length buf) :: size_t) - of_nat HEADER_SIZE
          in if 0 < n then parse_from M s buf HEADER_SIZE (ucast n)
             else Inr (True, s))"

definition unpack_raw ::
  "'s message_type \<Rightarrow> 's option \<Rightarrow> u8 list \<Rightarrow> u32 \<Rightarrow> fault + (bool \<times> 's)" where
  "unpack_raw M m_msg buf buf_size =
     (case m_msg of
        None \<Rightarrow> Inl NullDereference
      | Some s \<Rightarrow>
          let s = Clear M s;
              n = buf_size - of_nat HEADER_SIZE
          in if 0 < n then parse_from M s buf HEADER_SIZE n
             else Inr (True, s))"

subsection \<open>A message type of raw bytes\<close>

text \<open>
  The simplest message: its state is the byte string it stands for, which is also its
  encoding; the empty string is its default state.
\<close>

definition bytes_message :: "u8 list message_type" where
  "bytes_message =
     \<lparr> ByteSize = (\<lambda>s. of_nat (length s)),
       SerializeToArray = (\<lambda>s n. if length s \<le> n then (True, s) else (False, [])),
       ParseFromArray = (\<lambda>s bs. (True, bs)),
       Clear = (\<lambda>s. []) \<rparr>"



text \<open>A message that reports the largest \<open>int\<close> as its size and never serializes.\<close>

definition huge_message :: "unit message_type" where
  "huge_message =
     \<lparr> ByteSize = (\<lambda>s. 0x7FFFFFFF),
       SerializeToArray = (\<lambda>s n. (False, [])),
       ParseFromArray = (\<lambda>s bs. (False, s)),
       Clear = (\<lambda>s. s) \<rparr>"

section \<open>Properties\<close>

subsection \<open>Header bytes\<close>

lemma load_header_unfold:
  "load_header buf =
     (((ucast (buf ! 0) AND 0xFF) * 256 + (ucast (buf ! 1) AND 0xFF)) * 256
        + (ucast (buf ! 2) AND 0xFF)) * 256 + (ucast (buf ! 3) AND 0xFF)"
  by (simp add: load_header_def HEADER_SIZE_def upt_rec eval_nat_numeral)

lemma ff_mask: "(255 :: 'a::len word) = mask 8"
  by (simp add: mask_eq_exp_minus_1)

lemma ucast_and_ff: "(ucast (b :: u8) :: u32) AND 0xFF = ucast b"
  unfolding ff_mask
  by (rule bit_word_eqI) (auto simp add: bit_simps dest: bit_imp_le_length)

lemma shift_add: "(x :: u32) * 256 + ucast (b :: u8) = push_bit 8 x OR ucast b"
proof -
  have "x * 256 = push_bit 8 x"
    by (simp add: push_bit_eq_mult)
  moreover have "push_bit 8 x + ucast b = push_bit 8 x OR ucast b"
    by (rule disjunctive_add_eq_or, rule bit_word_eqI)
      (auto simp add: bit_simps dest: bit_imp_le_length)
  ultimately show ?thesis by simp
qed

lemma header_bytes_compose:
  fixes v :: u32
  shows "(((ucast (ucast (drop_bit 24 v AND 0xFF) :: u8) AND 0xFF) * 256
          + (ucast (ucast (drop_bit 16 v AND 0xFF) :: u8) AND 0xFF)) * 256
          + (ucast (ucast (drop_bit 8 v AND 0xFF) :: u8) AND 0xFF)) * 256
          + (ucast (ucast (v AND 0xFF) :: u8) AND 0xFF) = v"
  unfolding ucast_and_ff shift_add
  unfolding ff_mask
  apply (rule bit_word_eqI)
  subgoal for n
    by (cases "n < 8"; cases "n < 16"; cases "n < 24") (auto simp add: bit_simps)
  done

lemma length_ge_4: "4 \<le> length xs \<Longrightarrow> \<exists>a b c d r. xs = a # b # c # d # r"
  by (auto simp add: numeral_eq_Suc Suc_le_length_iff)

lemma store_header_eq:
  "4 \<le> length buf \<Longrightarrow>
     store_header buf v =
       [ucast (drop_bit 24 v AND 0xFF), ucast (drop_bit 16 v AND 0xFF),
        ucast (drop_bit 8 v AND 0xFF), ucast (v AND 0xFF)] @ drop 4 buf"
  by (drule length_ge_4) (auto simp add: store_header_def Let_def)

lemma length_store_header: "length (store_header buf v) = length buf"
  by (simp add: store_header_def Let_def)

lemma load_store_header: "4 \<le> length buf \<Longrightarrow> load_header (store_header buf v) = v"
  unfolding load_header_unfold
  by (simp only: store_header_eq append_Cons nth_Cons_0 nth_Cons_Suc One_nat_def
      numeral_2_eq_2 numeral_3_eq_3 header_bytes_compose)

lemma load_header_prefix:
  "4 \<le> length a \<Longrightarrow> take 4 b = take 4 a \<Longrightarrow> load_header b = load_header a"
proof -
  assume a: "4 \<le> length a" and t: "take 4 b = take 4 a"
  have "i < 4 \<Longrightarrow> b ! i = a ! i" for i
    using nth_take [of i 4 a] nth_take [of i 4 b] t by simp
  then show ?thesis
    by (simp add: load_header_unfold)
qed

text \<open>The loop reads the four bytes as a big-endian number.\<close>

lemma unat_u8_less: "unat (b :: u8) < 256"
proof -
  have "unat b < 2 ^ LENGTH(8)"
    by (rule unsigned_less)
  then show ?thesis
    by simp
qed

lemma unat_ucast_u8: "unat (ucast (b :: u8) :: u32) = unat b"
proof -
  have "unat b < 2 ^ 32"
    using unat_u8_less [of b] by simp
  then show ?thesis
    by (simp add: unsigned_ucast_eq take_bit_nat_eq_self)
qed

lemma unat_shift_add:
  fixes x :: u32 and b :: u8
  assumes "unat x < 2 ^ 24"
  shows "unat (x * 256 + ucast b) = unat x * 256 + unat b"
proof -
  have "unat (x * 256) = unat x * 256 mod 2 ^ 32"
    by (simp add: unat_word_ariths)
  then have "unat (x * 256 + ucast b) = (unat x * 256 mod 2 ^ 32 + unat b) mod 2 ^ 32"
    by (simp add: unat_word_ariths unat_ucast_u8)
  with assms unat_u8_less [of b] show ?thesis
    by simp
qed

lemma load_header_big_endian:
  "unat (load_header b) =
     ((unat (b ! 0) * 256 + unat (b ! 1)) * 256 + unat (b ! 2)) * 256 + unat (b ! 3)"
proof -
  let ?x0 = "ucast (b ! 0) :: u32"
  let ?x1 = "?x0 * 256 + ucast (b ! 1)"
  let ?x2 = "?x1 * 256 + ucast (b ! 2)"
  have b0: "unat ?x0 < 2 ^ 24"
    using unat_u8_less [of "b ! 0"] by (simp add: unat_ucast_u8)
  have 1: "unat ?x1 = unat (b ! 0) * 256 + unat (b ! 1)"
    using unat_shift_add [OF b0] by (simp add: unat_ucast_u8)
  have b1: "unat ?x1 < 2 ^ 24"
    using unat_u8_less [of "b ! 0"] unat_u8_less [of "b ! 1"] unfolding 1 by simp
  have 2: "unat ?x2 = unat ?x1 * 256 + unat (b ! 2)"
    by (rule unat_shift_add [OF b1])
  have b2: "unat ?x2 < 2 ^ 24"
    using unat_u8_less [of "b ! 0"] unat_u8_less [of "b ! 1"] unat_u8_less [of "b ! 2"]
    unfolding 2 1 by simp
  have 3: "unat (?x2 * 256 + ucast (b ! 3)) = unat ?x2 * 256 + unat (b ! 3)"
    by (rule unat_shift_add [OF b2])
  show ?thesis
    by (simp only: load_header_unfold ucast_and_ff 3 2 1)
qed

subsection \<open>Conversions between the integer types\<close>

lemma unat_header_plus:
  fixes w :: u32
  assumes "4 \<le> unat (4 + w)"
  shows "unat (4 + w) = 4 + unat w"
proof -
  have "unat w < 2 ^ 32"
    using unsigned_less [of w] by simp
  moreover have "unat (4 + w) = (4 + unat w) mod 2 ^ 32"
    by (simp add: unat_word_ariths)
  ultimately show ?thesis
    using assms by (simp add: mod_if split: if_splits)
qed

lemma nat_sint_unat:
  fixes w :: u32
  assumes "0 \<le> sint w"
  shows "nat (sint w) = unat w"
proof -
  have "sint w < 2 ^ 32"
    using sint_lt [of w] by simp
  with assms have "take_bit 32 (sint w) = sint w"
    by (simp add: take_bit_int_eq_self)
  then have "uint w = sint w"
    using uint_sint [of w] by simp
  then show ?thesis
    by (simp add: unat_eq_nat_uint)
qed

lemma ucast_size_t_back: "(ucast (ucast (w :: u32) :: size_t) :: u32) = w"
  by (rule bit_word_eqI) (auto simp add: bit_simps)

lemma size_t_pos: "(0 < (ucast (w :: u32) :: size_t)) = (0 < w)"
proof -
  have "(ucast w :: size_t) = 0 \<longleftrightarrow> w = 0"
    by (metis ucast_size_t_back unsigned_0)
  then show ?thesis
    by (simp add: word_gt_0)
qed

subsection \<open>What a successful \<open>pack\<close> has done\<close>

lemma length_resize: "length (resize buf n) = n"
  by (simp add: resize_def)

lemma serialize_to_Inr:
  assumes "serialize_to M s buf off sz = Inr (ok, buf')"
  shows "0 \<le> sint sz \<and> off + nat (sint sz) \<le> length buf \<and>
         (\<exists>out. SerializeToArray M s (nat (sint sz)) = (ok, out) \<and> length out \<le> nat (sint sz) \<and>
                buf' = take off buf @ out @ drop (off + length out) buf)"
  using assms
  by (auto simp add: serialize_to_def Let_def split: if_splits prod.splits)

lemma drop_store_header:
  assumes "4 \<le> length buf"
  shows "drop (4 + k) (store_header buf v) = drop (4 + k) buf"
proof -
  have "drop 4 (store_header buf v) = drop 4 buf"
    using assms by (simp add: store_header_eq)
  then have "drop k (drop 4 (store_header buf v)) = drop k (drop 4 buf)"
    by simp
  then show ?thesis
    by (simp add: add.commute)
qed

lemma pack_Some:
  "pack M (Some s) buf =
     (if unat (4 + ByteSize M s) < 4 then Inl AssertionFailure
      else if 0 < ByteSize M s
        then serialize_to M s
               (store_header (resize buf (unat (4 + ByteSize M s))) (ByteSize M s)) 4 (ByteSize M s)
        else Inr (True, store_header (resize buf (unat (4 + ByteSize M s))) (ByteSize M s)))"
  by (simp add: pack_def Let_def encode_header_def HEADER_SIZE_def length_resize)

lemma pack_True:
  assumes "pack M (Some s) buf = Inr (True, buf')"
  shows "4 \<le> unat (4 + ByteSize M s) \<and>
         (\<exists>out. (if 0 < ByteSize M s
                 then 0 \<le> sint (ByteSize M s) \<and>
                      SerializeToArray M s (unat (ByteSize M s)) = (True, out) \<and>
                      length out \<le> unat (ByteSize M s)
                 else out = []) \<and>
            buf' = take 4 (store_header (resize buf (4 + unat (ByteSize M s))) (ByteSize M s))
                   @ out @ drop (4 + length out) (resize buf (4 + unat (ByteSize M s))))"
proof -
  let ?w = "ByteSize M s"
  let ?r = "resize buf (unat (4 + ?w))"
  from assms have len: "4 \<le> unat (4 + ?w)"
    by (simp add: pack_Some split: if_splits)
  then have u: "unat (4 + ?w) = 4 + unat ?w"
    by (rule unat_header_plus)
  have lr: "length ?r = 4 + unat ?w"
    by (simp add: length_resize u)
  show ?thesis
  proof (cases "0 < ?w")
    case True
    with assms len have "serialize_to M s (store_header ?r ?w) 4 ?w = Inr (True, buf')"
      by (simp add: pack_Some)
    from serialize_to_Inr [OF this] obtain out where
      o: "0 \<le> sint ?w" "SerializeToArray M s (nat (sint ?w)) = (True, out)"
         "length out \<le> nat (sint ?w)"
         "buf' = take 4 (store_header ?r ?w) @ out @ drop (4 + length out) (store_header ?r ?w)"
      by blast
    have "drop (4 + length out) (store_header ?r ?w) = drop (4 + length out) ?r"
      using lr by (simp add: drop_store_header)
    with o True len show ?thesis
      by (auto simp add: nat_sint_unat u)
  next
    case False
    with assms len have "buf' = store_header ?r ?w"
      by (simp add: pack_Some)
    with False len lr show ?thesis
      by (simp add: u store_header_eq)
  qed
qed

subsection \<open>The header of a packed buffer\<close>

text \<open>
  Claim C2. Whenever \<open>pack\<close> into the growable buffer returns true, the buffer it leaves
  is exactly \<open>HEADER_SIZE\<close> plus the message's encoded length long (\<open>ByteSize\<close>, as
  the \<open>unsigned msg_size\<close> of the source), and \<open>decode_header\<close> of that buffer is its
  length minus \<open>HEADER_SIZE\<close>: the four bytes written by \<open>encode_header\<close> decode back
  to the length of the body.
\<close>

theorem pack_header_exact:
  assumes "pack M (Some s) buf = Inr (True, buf')"
  shows "length buf' = HEADER_SIZE + unat (ByteSize M s) \<and>
         unat (decode_header buf') = length buf' - HEADER_SIZE"
proof -
  let ?w = "ByteSize M s"
  let ?r = "resize buf (4 + unat ?w)"
  from pack_True [OF assms] obtain out where
    c: "if 0 < ?w then 0 \<le> sint ?w \<and> SerializeToArray M s (unat ?w) = (True, out) \<and>
          length out \<le> unat ?w else out = []"
    and b: "buf' = take 4 (store_header ?r ?w) @ out @ drop (4 + length out) ?r"
    by blast
  from c have o: "length out \<le> unat ?w"
    by (simp split: if_splits)
  have lr: "length ?r = 4 + unat ?w"
    by (simp add: length_resize)
  have len: "length buf' = 4 + unat ?w"
    using o lr by (simp add: b length_store_header)
  have "take 4 buf' = take 4 (store_header ?r ?w)"
    using lr by (simp add: b length_store_header)
  then have "load_header buf' = load_header (store_header ?r ?w)"
    using lr by (intro load_header_prefix) (simp_all add: length_store_header)
  also have "\<dots> = ?w"
    using lr by (simp add: load_store_header)
  finally have "decode_header buf' = ?w"
    by (simp add: decode_header_def len HEADER_SIZE_def)
  with len show ?thesis
    by (simp add: HEADER_SIZE_def)
qed

theorem pack_header_exact_witness:
  "pack bytes_message (Some [1, 2, 3]) [9, 9] = Inr (True, [0, 0, 0, 3, 1, 2, 3]) \<and>
   length [0, 0, 0, 3, 1, 2, 3 :: u8] = HEADER_SIZE + unat (ByteSize bytes_message [1, 2, 3]) \<and>
   unat (decode_header [0, 0, 0, 3, 1, 2, 3]) = length [0, 0, 0, 3, 1, 2, 3 :: u8] - HEADER_SIZE"
proof -
  have p: "pack bytes_message (Some [1, 2, 3]) [9, 9] = Inr (True, [0, 0, 0, 3, 1, 2, 3])"
    by code_simp
  from pack_header_exact [OF p] p show ?thesis
    by simp
qed

text \<open>
  Claim C10. A message whose \<open>ByteSize\<close> is 3 and whose serializer stores the bytes
  1, 2, 3 is packed, whatever the buffer held before, into exactly the seven bytes
  0, 0, 0, 3, 1, 2, 3; \<open>decode_header\<close> of these is 3; and \<open>decode_header\<close> of any buffer
  that starts with the bytes 0, 0, 1, 0 is 256.
\<close>

theorem pack_three_bytes:
  assumes "ByteSize M s = 3" and "SerializeToArray M s 3 = (True, [1, 2, 3])"
  shows "pack M (Some s) buf = Inr (True, [0, 0, 0, 3, 1, 2, 3]) \<and>
         decode_header [0, 0, 0, 3, 1, 2, 3] = 3 \<and>
         decode_header (0 # 0 # 1 # 0 # rest) = 256"
proof -
  have "store_header (resize buf 7) 3 = [0, 0, 0, 3] @ drop 4 (resize buf 7)"
    by (simp add: store_header_eq length_resize)
  moreover have "length (drop 4 (resize buf 7)) = 3"
    by (simp add: length_resize)
  ultimately have "pack M (Some s) buf = Inr (True, [0, 0, 0, 3, 1, 2, 3])"
    using assms by (simp add: pack_Some serialize_to_def)
  moreover have "decode_header [0, 0, 0, 3, 1, 2, 3] = 3"
    by (simp add: decode_header_def HEADER_SIZE_def load_header_unfold)
  moreover have "decode_header (0 # 0 # 1 # 0 # rest) = 256"
    by (simp add: decode_header_def HEADER_SIZE_def load_header_unfold)
  ultimately show ?thesis by simp
qed

theorem pack_three_bytes_witness:
  "pack bytes_message (Some [1, 2, 3]) [] = Inr (True, [0, 0, 0, 3, 1, 2, 3]) \<and>
   decode_header [0, 0, 0, 3, 1, 2, 3] = 3 \<and>
   decode_header [0, 0, 1, 0, 7, 7] = 256"
  using pack_three_bytes [of bytes_message "[1, 2, 3]" "[]" "[7, 7]"]
  by (simp add: bytes_message_def)

subsection \<open>Round trip\<close>

text \<open>
  Claim C1. Let the parser restore the message \<open>p\<close> from what the serializer stored
  for it (from the range as \<open>pack\<close> leaves it: the stored bytes, then whatever the
  serializer left untouched), started on a freshly cleared message; and let \<open>p\<close>, when
  its encoded length is 0, be the default message that \<open>Clear\<close> leaves (the source's
  ``no body to encode (i.e. just using message defaults)''). Then \<open>unpack\<close> of the buffer
  of a successful \<open>pack\<close> of \<open>p\<close> returns true and leaves the message in the state
  \<open>p\<close>, for every encoded length, 0 included.
\<close>

theorem pack_unpack_roundtrip:
  assumes pk: "pack M (Some p) buf0 = Inr (True, buf)"
    and inv: "\<And>out rest. SerializeToArray M p (unat (ByteSize M p)) = (True, out) \<Longrightarrow>
                length out + length rest = unat (ByteSize M p) \<Longrightarrow>
                ParseFromArray M (Clear M t) (out @ rest) = (True, p)"
    and dflt: "ByteSize M p = 0 \<Longrightarrow> p = Clear M t"
  shows "unpack M (Some t) buf = Inr (True, p)"
proof -
  let ?w = "ByteSize M p"
  let ?r = "resize buf0 (4 + unat ?w)"
  from pack_True [OF pk] obtain out where
    c: "if 0 < ?w then 0 \<le> sint ?w \<and> SerializeToArray M p (unat ?w) = (True, out) \<and>
          length out \<le> unat ?w else out = []"
    and b: "buf = take 4 (store_header ?r ?w) @ out @ drop (4 + length out) ?r"
    by blast
  from c have o: "length out \<le> unat ?w"
    by (simp split: if_splits)
  have len: "length buf = 4 + unat ?w"
    using o by (simp add: b length_store_header length_resize)
  have n: "(of_nat (length buf) :: size_t) - 4 = ucast ?w"
    by (simp add: len)
  show ?thesis
  proof (cases "0 < ?w")
    case False
    then have z: "?w = 0"
      by (simp add: word_gt_0)
    then have "unpack M (Some t) buf = Inr (True, Clear M t)"
      by (simp add: unpack_def Let_def HEADER_SIZE_def n)
    with dflt [OF z] show ?thesis
      by simp
  next
    case True
    with c have s: "0 \<le> sint ?w" and ser: "SerializeToArray M p (unat ?w) = (True, out)"
      by simp_all
    let ?rest = "drop (4 + length out) ?r"
    have body: "drop 4 buf = out @ ?rest"
      by (simp add: b length_store_header length_resize)
    have "length out + length ?rest = unat ?w"
      using o by (simp add: length_resize)
    from inv [OF ser this] have "ParseFromArray M (Clear M t) (drop 4 buf) = (True, p)"
      by (simp add: body)
    moreover have "take (unat ?w) (drop 4 buf) = drop 4 buf"
      by (simp add: len)
    ultimately have "parse_from M (Clear M t) buf 4 ?w = Inr (True, p)"
      using s by (simp add: parse_from_def nat_sint_unat len)
    then show ?thesis
      using True by (simp add: unpack_def Let_def HEADER_SIZE_def n size_t_pos ucast_size_t_back)
  qed
qed

theorem pack_unpack_roundtrip_witness:
  "pack bytes_message (Some [1, 2, 3]) [9, 9] = Inr (True, [0, 0, 0, 3, 1, 2, 3]) \<and>
   unpack bytes_message (Some [7]) [0, 0, 0, 3, 1, 2, 3] = Inr (True, [1, 2, 3]) \<and>
   pack bytes_message (Some []) [9, 9] = Inr (True, [0, 0, 0, 0]) \<and>
   unpack bytes_message (Some [7]) [0, 0, 0, 0] = Inr (True, [])"
proof -
  have p1: "pack bytes_message (Some [1, 2, 3]) [9, 9] = Inr (True, [0, 0, 0, 3, 1, 2, 3])"
    by code_simp
  have p0: "pack bytes_message (Some []) [9, 9] = Inr (True, [0, 0, 0, 0])"
    by code_simp
  have i1: "SerializeToArray bytes_message [1, 2, 3] (unat (ByteSize bytes_message [1, 2, 3])) = (True, out) \<Longrightarrow>
        length out + length rest = unat (ByteSize bytes_message [1, 2, 3]) \<Longrightarrow>
        ParseFromArray bytes_message (Clear bytes_message [7]) (out @ rest) = (True, [1, 2, 3])"
    for out rest
    by (auto simp add: bytes_message_def)
  have i0: "SerializeToArray bytes_message [] (unat (ByteSize bytes_message [])) = (True, out) \<Longrightarrow>
        length out + length rest = unat (ByteSize bytes_message []) \<Longrightarrow>
        ParseFromArray bytes_message (Clear bytes_message [7]) (out @ rest) = (True, [])"
    for out rest
    by (auto simp add: bytes_message_def)
  have d1: "ByteSize bytes_message [1, 2, 3] = 0 \<Longrightarrow> [1, 2, 3] = Clear bytes_message [7]"
    by (simp add: bytes_message_def)
  have d0: "ByteSize bytes_message [] = 0 \<Longrightarrow> [] = Clear bytes_message [7]"
    by (simp add: bytes_message_def)
  from pack_unpack_roundtrip [OF p1 i1 d1] pack_unpack_roundtrip [OF p0 i0 d0] p1 p0
  show ?thesis
    by simp
qed

subsection \<open>Unpacking\<close>

text \<open>
  Claim C8. \<open>unpack\<close> never reads the header: for two buffers of the same length that
  agree from offset \<open>HEADER_SIZE\<close> on, both overloads return the same result and leave
  the message in the same state (and fail alike where they fail), whatever their first
  four bytes say.
\<close>

theorem unpack_ignores_header:
  assumes "length b1 = length b2" and "drop HEADER_SIZE b1 = drop HEADER_SIZE b2"
  shows "unpack M m b1 = unpack M m b2 \<and>
         unpack_raw M m b1 buf_size = unpack_raw M m b2 buf_size"
  using assms by (cases m) (simp_all add: unpack_def unpack_raw_def parse_from_def Let_def)

theorem unpack_ignores_header_witness:
  "unpack bytes_message (Some [7]) [0, 0, 0, 3, 1, 2, 3] =
     unpack bytes_message (Some [7]) [9, 9, 9, 9, 1, 2, 3] \<and>
   unpack_raw bytes_message (Some [7]) [0, 0, 0, 3, 1, 2, 3] 7 =
     unpack_raw bytes_message (Some [7]) [9, 9, 9, 9, 1, 2, 3] 7 \<and>
   unpack bytes_message (Some [7]) [9, 9, 9, 9, 1, 2, 3] = Inr (True, [1, 2, 3])"
proof -
  have "unpack bytes_message (Some [7]) [9, 9, 9, 9, 1, 2, 3] = Inr (True, [1, 2, 3])"
    by code_simp
  then show ?thesis
    using unpack_ignores_header [of "[0, 0, 0, 3, 1, 2, 3]" "[9, 9, 9, 9, 1, 2, 3]"
        bytes_message "Some [7]" 7]
    by (simp add: HEADER_SIZE_def)
qed

text \<open>
  Claim C9. On a codec that refers to no message both \<open>pack\<close> overloads return false
  and leave the buffer alone, while both \<open>unpack\<close> overloads call \<open>Clear\<close> through the
  empty pointer at once: no guard turns the missing message into a false result.
\<close>

theorem null_payload:
  "unpack M None buf = Inl NullDereference \<and>
   unpack_raw M None buf buf_size = Inl NullDereference \<and>
   pack M None buf = Inr (False, buf) \<and>
   pack_fixed M None buf buf_size = Inr (False, buf)"
  by (simp add: unpack_def unpack_raw_def pack_def pack_fixed_def)

lemma short_length: "n < (4::nat) \<Longrightarrow> n = 0 \<or> n = 1 \<or> n = 2 \<or> n = 3"
  by arith

text \<open>
  Claim C3 asks that a buffer shorter than \<open>HEADER_SIZE\<close> decodes to 0 and that
  \<open>unpack\<close> treats it as an empty body and returns true. \<open>decode_header\<close> does return 0.
  Both \<open>unpack\<close> overloads do not: the unsigned difference of the length and
  \<open>HEADER_SIZE\<close> wraps around and is not 0, so they take the parsing branch and hand the
  message a range that starts behind the end of the buffer, with a negative \<open>int size\<close>.
\<close>

theorem unpack_short_buffer:
  assumes "length buf < HEADER_SIZE"
  shows "decode_header buf = 0 \<and>
         unpack M (Some s) buf = Inl OutOfBounds \<and>
         unpack_raw M (Some s) buf (of_nat (length buf)) = Inl OutOfBounds"
proof -
  from assms have "length buf = 0 \<or> length buf = 1 \<or> length buf = 2 \<or> length buf = 3"
    unfolding HEADER_SIZE_def by (rule short_length)
  then show ?thesis
    by (elim disjE)
      (simp_all add: decode_header_def unpack_def unpack_raw_def parse_from_def
        HEADER_SIZE_def word_gt_0 del: length_0_conv)
qed

theorem unpack_short_buffer_witness:
  "decode_header [] = 0 \<and>
   unpack bytes_message (Some [7]) [] = Inl OutOfBounds \<and>
   unpack_raw bytes_message (Some [7]) [] 0 = Inl OutOfBounds"
  using unpack_short_buffer [of "[]" bytes_message "[7]"]
  by (simp add: HEADER_SIZE_def)

subsection \<open>The two forms of \<open>decode_header\<close>\<close>

text \<open>
  Claim C7. For a pointer to the bytes \<open>b\<close> with their length as \<open>buf_size\<close>, the pointer
  overload of \<open>decode_header\<close> returns what the \<open>data_buffer\<close> overload returns for \<open>b\<close>:
  0 for fewer than \<open>HEADER_SIZE\<close> bytes, the big-endian value of the first four bytes
  otherwise.
\<close>

theorem decode_header_forms_agree:
  assumes "unat buf_size = length b"
  shows "decode_header_raw b buf_size = Inr (decode_header b) \<and>
         unat (decode_header b) =
           (if length b < HEADER_SIZE then 0
            else ((unat (b ! 0) * 256 + unat (b ! 1)) * 256 + unat (b ! 2)) * 256
                   + unat (b ! 3))"
proof -
  have "buf_size < 4 \<longleftrightarrow> length b < 4"
    using assms by (simp add: word_less_nat_alt)
  then have "decode_header_raw b buf_size = Inr (decode_header b)"
    by (simp add: decode_header_raw_def decode_header_def HEADER_SIZE_def)
  then show ?thesis
    by (simp add: decode_header_def load_header_big_endian)
qed

theorem decode_header_forms_agree_witness:
  "decode_header_raw [0, 0, 1, 0, 5] 5 = Inr (decode_header [0, 0, 1, 0, 5]) \<and>
   unat (decode_header [0, 0, 1, 0, 5]) = 256 \<and>
   decode_header_raw [0, 0, 1] 3 = Inr (decode_header [0, 0, 1]) \<and>
   unat (decode_header [0, 0, 1]) = 0"
  using decode_header_forms_agree [of 5 "[0, 0, 1, 0, 5]"]
    decode_header_forms_agree [of 3 "[0, 0, 1]"]
  by (simp add: HEADER_SIZE_def)

subsection \<open>What \<open>unpack\<close> leaves in the message\<close>













subsection \<open>Packing into a fixed buffer\<close>

lemma pack_fixed_True:
  assumes "pack_fixed M (Some s) buf buf_size = Inr (True, buf')"
  shows "int HEADER_SIZE + sint (ByteSize M s) < sint buf_size"
  using assms
  by (simp add: pack_fixed_def Let_def split: if_splits)

lemma pack_fixed_rejects:
  assumes "int HEADER_SIZE + sint (ByteSize M s) \<le> 2147483647"
    and "sint buf_size \<le> int HEADER_SIZE + sint (ByteSize M s)"
  shows "pack_fixed M (Some s) buf buf_size = Inr (False, buf)"
  using assms
  by (simp add: pack_fixed_def Let_def)

text \<open>
  Where the sum \<open>(int)HEADER_SIZE + msg_size\<close> is an \<open>int\<close>, the capacity test does what
  the comment ``The message must fit inside the given array'' asks.
\<close>

lemma pack_fixed_capacity:
  "(pack_fixed M (Some s) buf buf_size = Inr (True, buf')
      \<longrightarrow> int HEADER_SIZE + sint (ByteSize M s) < sint buf_size) \<and>
   (int HEADER_SIZE + sint (ByteSize M s) \<le> 2147483647 \<and>
    sint buf_size \<le> int HEADER_SIZE + sint (ByteSize M s)
      \<longrightarrow> pack_fixed M (Some s) buf buf_size = Inr (False, buf))"
  using pack_fixed_True [of M s buf buf_size buf'] pack_fixed_rejects [of M s buf_size buf]
  by blast

text \<open>
  Claim C5 asks that the fixed-buffer \<open>pack\<close> returns true only if
  \<open>HEADER_SIZE + msg_size < buf_size\<close>, and that it returns false and leaves the caller's
  buffer alone whenever \<open>buf_size <= HEADER_SIZE + msg_size\<close>. The capacity test attempts
  this and misses the sizes from 2147483644 on: there the capacity is always too small,
  but the sum \<open>(int)HEADER_SIZE + msg_size\<close> overflows, which C++ leaves undefined, so
  the call does not return false with the buffer untouched.
\<close>

theorem pack_fixed_overflow:
  assumes "2147483647 < int HEADER_SIZE + sint (ByteSize M s)"
  shows "sint buf_size \<le> int HEADER_SIZE + sint (ByteSize M s) \<and>
         pack_fixed M (Some s) buf buf_size = Inl SignedOverflow"
proof -
  have "sint buf_size < 2147483648"
    using sint_lt [of buf_size] by simp
  with assms show ?thesis
    by (simp add: pack_fixed_def Let_def)
qed

theorem pack_fixed_overflow_witness:
  "sint (8 :: u32) \<le> int HEADER_SIZE + sint (ByteSize huge_message ()) \<and>
   pack_fixed huge_message (Some ()) [9, 9, 9, 9, 9, 9, 9, 9] 8 = Inl SignedOverflow"
proof -
  have "2147483647 < int HEADER_SIZE + sint (ByteSize huge_message ())"
    by (simp add: huge_message_def HEADER_SIZE_def)
  from pack_fixed_overflow [OF this] show ?thesis
    by blast
qed

lemma nth_overwrite:
  assumes "off + length out \<le> i" and "i < length b"
  shows "(take off b @ out @ drop (off + length out) b) ! i = b ! i"
  using assms by (auto simp add: nth_append min_def)

lemma nth_store_header:
  assumes "4 \<le> i" and "i < length b"
  shows "store_header b v ! i = b ! i"
  using assms by (simp add: store_header_def Let_def)

lemma memset_zero_Inr:
  assumes "memset_zero buf n = Inr buf'"
  shows "0 \<le> sint n \<and> nat (sint n) \<le> length buf \<and> length buf' = length buf \<and>
         (\<forall>i < nat (sint n). buf' ! i = 0)"
  using assms by (auto simp add: memset_zero_def nth_append split: if_splits)

text \<open>
  Claim C6. After a fixed-buffer \<open>pack\<close> that returns true, for a message whose
  \<open>ByteSize\<close> (a count of bytes) is not negative, every byte of the caller's buffer at an
  index from \<open>HEADER_SIZE + msg_size\<close> up to, not including, \<open>buf_size\<close> is zero: the
  \<open>memset\<close> has cleared all \<open>buf_size\<close> bytes, and the header and the serializer store
  only below that index.
\<close>

theorem pack_fixed_zero_fill:
  assumes ok: "pack_fixed M (Some s) buf buf_size = Inr (True, buf')"
    and nonneg: "0 \<le> sint (ByteSize M s)"
    and lo: "int HEADER_SIZE + sint (ByteSize M s) \<le> int i" and hi: "int i < sint buf_size"
  shows "i < length buf' \<and> buf' ! i = 0"
proof -
  let ?w = "ByteSize M s"
  from ok obtain b1 b2 where
    m: "memset_zero buf buf_size = Inr b1"
    and e: "encode_header_raw b1 buf_size ?w = Inr b2"
    and r: "if 0 < sint ?w then serialize_to M s b2 HEADER_SIZE ?w = Inr (True, buf') else buf' = b2"
    by (auto simp add: pack_fixed_def Let_def split: if_splits sum.splits)
  from memset_zero_Inr [OF m] hi have l1: "i < length b1" and z: "b1 ! i = 0"
    by auto
  from e have b2: "b2 = store_header b1 ?w"
    by (simp add: encode_header_raw_def split: if_splits)
  from lo nonneg have i4: "4 \<le> i"
    by (simp add: HEADER_SIZE_def)
  have z2: "b2 ! i = 0" and l2: "i < length b2"
    using i4 l1 z by (simp_all add: b2 nth_store_header length_store_header)
  show ?thesis
  proof (cases "0 < sint ?w")
    case False
    with r z2 l2 show ?thesis by simp
  next
    case True
    with r have "serialize_to M s b2 HEADER_SIZE ?w = Inr (True, buf')"
      by simp
    from serialize_to_Inr [OF this] obtain out where
      o: "length out \<le> nat (sint ?w)"
      and b': "buf' = take HEADER_SIZE b2 @ out @ drop (HEADER_SIZE + length out) b2"
      by blast
    from o lo nonneg have h: "HEADER_SIZE + length out \<le> i"
      by linarith
    with l2 have "length buf' = length b2"
      by (simp add: b')
    with h l2 z2 show ?thesis
      by (simp add: b' nth_overwrite)
  qed
qed

theorem pack_fixed_zero_fill_witness:
  "pack_fixed bytes_message (Some [1, 2, 3]) [9, 9, 9, 9, 9, 9, 9, 9, 9] 9
     = Inr (True, [0, 0, 0, 3, 1, 2, 3, 0, 0]) \<and>
   7 < length [0, 0, 0, 3, 1, 2, 3, 0, 0 :: u8] \<and>
   [0, 0, 0, 3, 1, 2, 3, 0, 0 :: u8] ! 7 = 0 \<and>
   [0, 0, 0, 3, 1, 2, 3, 0, 0 :: u8] ! 8 = 0"
proof -
  have t: "pack_fixed bytes_message (Some [1, 2, 3]) [9, 9, 9, 9, 9, 9, 9, 9, 9] 9
     = Inr (True, [0, 0, 0, 3, 1, 2, 3, 0, 0])"
    by code_simp
  have n: "0 \<le> sint (ByteSize bytes_message [1, 2, 3])"
    by (simp add: bytes_message_def)
  have "int HEADER_SIZE + sint (ByteSize bytes_message [1, 2, 3]) \<le> int 7"
    and "int 7 < sint (9 :: u32)"
    and "int HEADER_SIZE + sint (ByteSize bytes_message [1, 2, 3]) \<le> int 8"
    and "int 8 < sint (9 :: u32)"
    by (simp_all add: bytes_message_def HEADER_SIZE_def)
  with pack_fixed_zero_fill [OF t n, of 7] pack_fixed_zero_fill [OF t n, of 8] t
  show ?thesis
    by blast
qed

end
